theory Spec2Isabelle
  imports Main
begin

section \<open>Persistence layer\<close>

text \<open>
  The three mapped classes of \<^verbatim>\<open>main.py\<close>, one record per class, one field per column.
  The relationship attributes (\<^verbatim>\<open>author\<close>, \<^verbatim>\<open>comment_author\<close>, \<^verbatim>\<open>parent_post\<close>) are
  stored through their foreign-key columns. Two classes have columns named \<^verbatim>\<open>id\<close> and
  \<^verbatim>\<open>author_id\<close>, and \<^verbatim>\<open>text\<close> is reserved, so those fields carry a prefix.
\<close>

record UserAccts =
  uid :: int
  email :: string
  password :: string
  name :: string

record BlogPost =
  pid :: int
  author_id :: int
  title :: string
  subtitle :: string
  date :: string
  body :: string
  img_url :: string

record Comment =
  cid :: int
  comment_author_id :: int
  post_id :: int
  comment_text :: string

text \<open>
  What survives between requests: the three tables (named after \<^verbatim>\<open>__tablename__\<close>), the
  user id that \<^verbatim>\<open>login_user\<close> keeps in the session, and the flashed messages.
\<close>

record app_state =
  user_accts :: "UserAccts list"
  blog_posts :: "BlogPost list"
  comments :: "Comment list"
  session_user_id :: "int option"
  flashes :: "string list"

text \<open>\<^verbatim>\<open>db.create_all()\<close> on a fresh database file, before any request.\<close>

definition initial_state :: app_state where
  "initial_state =
     \<lparr>user_accts = [], blog_posts = [], comments = [], session_user_id = None, flashes = []\<rparr>"

text \<open>
  Every way a request can end without a response of the handler: \<^verbatim>\<open>abort(403)\<close>,
  \<^verbatim>\<open>abort(404)\<close> (from \<^verbatim>\<open>get_or_404\<close>), and the two uncaught exceptions that the
  handlers can raise, which the server turns into an internal server error.
\<close>

datatype error = Forbidden | NotFound | AttributeError | IntegrityError

datatype endpoint = Login | Get_all_posts | Show_post int

datatype response = Redirect endpoint | Render_template string

type_synonym outcome = "error + app_state \<times> response"

text \<open>
  A request that ends in an error never reached \<^verbatim>\<open>db.session.commit()\<close> successfully and
  never touched the session, so the state after it is the state before it.
\<close>

definition state_after :: "app_state \<Rightarrow> outcome \<Rightarrow> app_state" where
  "state_after st r = (case r of Inl e \<Rightarrow> st | Inr (st', resp) \<Rightarrow> st')"

definition get_or_404 :: "('a \<Rightarrow> int) \<Rightarrow> 'a list \<Rightarrow> int \<Rightarrow> error + 'a" where
  "get_or_404 key rows i =
     (case find (\<lambda>r. key r = i) rows of None \<Rightarrow> Inl NotFound | Some r \<Rightarrow> Inr r)"

text \<open>
  An \<^verbatim>\<open>Integer\<close> primary key on SQLite is the row id: one more than the largest id of the
  table, 1 for an empty table (ids are positive).
\<close>

definition next_id :: "int list \<Rightarrow> int" where
  "next_id ids = fold max ids 0 + 1"

section \<open>Session principal and the authorization guard\<close>

text \<open>
  \<^verbatim>\<open>current_user\<close> is the anonymous user object of the login extension when the session
  holds no user id, and otherwise what \<^verbatim>\<open>load_user\<close> returns. The anonymous object has
  \<^verbatim>\<open>is_authenticated = False\<close> and no attribute \<^verbatim>\<open>id\<close>.
\<close>

datatype principal = Anonymous | Authenticated UserAccts

definition load_user :: "app_state \<Rightarrow> int \<Rightarrow> error + UserAccts" where
  "load_user st user_id = get_or_404 uid (user_accts st) user_id"

definition current_user :: "app_state \<Rightarrow> error + principal" where
  "current_user st =
     (case session_user_id st of
        None \<Rightarrow> Inr Anonymous
      | Some user_id \<Rightarrow>
          (case load_user st user_id of Inl e \<Rightarrow> Inl e | Inr u \<Rightarrow> Inr (Authenticated u)))"

fun is_authenticated :: "principal \<Rightarrow> bool" where
  "is_authenticated Anonymous = False"
| "is_authenticated (Authenticated u) = True"

text \<open>
  The decorator. Reading \<^verbatim>\<open>current_user.id\<close> of the anonymous object raises
  \<^verbatim>\<open>AttributeError\<close>; otherwise the id is compared with 1.
\<close>

definition admin_only :: "(app_state \<Rightarrow> outcome) \<Rightarrow> app_state \<Rightarrow> outcome" where
  "admin_only func st =
     (case current_user st of
        Inl e \<Rightarrow> Inl e
      | Inr Anonymous \<Rightarrow> Inl AttributeError
      | Inr (Authenticated u) \<Rightarrow> if uid u \<noteq> 1 then Inl Forbidden else func st)"

section \<open>Forms\<close>

text \<open>
  The form classes live in \<^verbatim>\<open>forms.py\<close>; the handlers read the fields below. The
  validators of a form are a parameter \<open>vld\<close> of each handler. \<^verbatim>\<open>validate_on_submit()\<close>
  holds for a POST whose form data pass them.
\<close>

record RegisterForm =
  rf_email :: string
  rf_password :: string
  rf_name :: string

record LoginForm =
  lf_email :: string
  lf_password :: string

record CommentForm =
  cf_comment_text :: string

record CreatePostForm =
  pf_title :: string
  pf_subtitle :: string
  pf_img_url :: string
  pf_body :: string

datatype 'f request = GET | POST 'f

fun validate_on_submit :: "('f \<Rightarrow> bool) \<Rightarrow> 'f request \<Rightarrow> 'f option" where
  "validate_on_submit vld GET = None"
| "validate_on_submit vld (POST form) = (if vld form then Some form else None)"

definition flash :: "string \<Rightarrow> app_state \<Rightarrow> app_state" where
  "flash msg st = st\<lparr>flashes := flashes st @ [msg]\<rparr>"

definition login_user :: "UserAccts \<Rightarrow> app_state \<Rightarrow> app_state" where
  "login_user u st = st\<lparr>session_user_id := Some (uid u)\<rparr>"

definition logout_user :: "app_state \<Rightarrow> app_state" where
  "logout_user st = st\<lparr>session_user_id := None\<rparr>"

section \<open>Today's date as a display string\<close>

datatype month_name =
  January | February | March | April | May | June
  | July | August | September | October | November | December

record pydate =
  year :: nat
  month :: month_name
  day :: nat

fun month_str :: "month_name \<Rightarrow> string" where
  "month_str January = ''January''"
| "month_str February = ''February''"
| "month_str March = ''March''"
| "month_str April = ''April''"
| "month_str May = ''May''"
| "month_str June = ''June''"
| "month_str July = ''July''"
| "month_str August = ''August''"
| "month_str September = ''September''"
| "month_str October = ''October''"
| "month_str November = ''November''"
| "month_str December = ''December''"

fun show_nat :: "nat \<Rightarrow> string" where
  "show_nat n =
     (if n < 10 then [''0123456789'' ! n]
      else show_nat (n div 10) @ [''0123456789'' ! (n mod 10)])"

declare show_nat.simps [simp del]

text \<open>\<^verbatim>\<open>strftime("%B %d, %Y")\<close>: month name, day of the month on two digits, year.\<close>

definition strftime_B_d_Y :: "pydate \<Rightarrow> string" where
  "strftime_B_d_Y d =
     month_str (month d) @ '' '' @ (if day d < 10 then ''0'' else '''') @ show_nat (day d)
       @ '', '' @ show_nat (year d)"

section \<open>Request handlers\<close>

text \<open>
  \<^verbatim>\<open>register\<close>. \<open>gen\<close> is \<^verbatim>\<open>generate_password_hash\<close> with the salt it draws for
  this request.
\<close>

definition register ::
  "(RegisterForm \<Rightarrow> bool) \<Rightarrow> (string \<Rightarrow> string) \<Rightarrow> RegisterForm request \<Rightarrow> app_state \<Rightarrow> outcome"
where
  "register vld gen req st =
     (case validate_on_submit vld req of
        None \<Rightarrow> Inr (st, Render_template ''register.html'')
      | Some r_form \<Rightarrow>
          (case find (\<lambda>u. email u = rf_email r_form) (user_accts st) of
             Some user \<Rightarrow>
               Inr (flash ''You've already signed up with that email, log in instead!'' st,
                    Redirect Login)
           | None \<Rightarrow>
               (let new_user =
                      \<lparr>uid = next_id (map uid (user_accts st)),
                       email = rf_email r_form,
                       password = gen (rf_password r_form),
                       name = rf_name r_form\<rparr>
                in Inr (login_user new_user (st\<lparr>user_accts := user_accts st @ [new_user]\<rparr>),
                        Redirect Get_all_posts))))"

text \<open>\<^verbatim>\<open>login\<close>. \<open>chk pwhash pw\<close> is \<^verbatim>\<open>check_password_hash(pwhash, pw)\<close>.\<close>

definition login ::
  "(LoginForm \<Rightarrow> bool) \<Rightarrow> (string \<Rightarrow> string \<Rightarrow> bool) \<Rightarrow> LoginForm request \<Rightarrow> app_state \<Rightarrow> outcome"
where
  "login vld chk req st =
     (case validate_on_submit vld req of
        None \<Rightarrow> Inr (st, Render_template ''login.html'')
      | Some l_form \<Rightarrow>
          (case find (\<lambda>u. email u = lf_email l_form) (user_accts st) of
             None \<Rightarrow>
               Inr (flash ''That email does not exist, please try again.'' st, Redirect Login)
           | Some u_acct \<Rightarrow>
               if \<not> chk (password u_acct) (lf_password l_form)
               then Inr (flash ''Password incorrect, please try again.'' st, Redirect Login)
               else Inr (login_user u_acct st, Redirect Get_all_posts)))"

definition logout :: "app_state \<Rightarrow> outcome" where
  "logout st = Inr (logout_user st, Redirect Get_all_posts)"

definition get_all_posts :: "app_state \<Rightarrow> outcome" where
  "get_all_posts st = Inr (st, Render_template ''index.html'')"

definition about :: "app_state \<Rightarrow> outcome" where
  "about st = Inr (st, Render_template ''about.html'')"

definition contact :: "app_state \<Rightarrow> outcome" where
  "contact st = Inr (st, Render_template ''contact.html'')"

text \<open>\<^verbatim>\<open>show_post\<close>: the post page, and the comment form posted to it.\<close>

definition show_post ::
  "(CommentForm \<Rightarrow> bool) \<Rightarrow> int \<Rightarrow> CommentForm request \<Rightarrow> app_state \<Rightarrow> outcome"
where
  "show_post vld i req st =
     (case get_or_404 pid (blog_posts st) i of
        Inl e \<Rightarrow> Inl e
      | Inr requested_post \<Rightarrow>
          (case validate_on_submit vld req of
             None \<Rightarrow> Inr (st, Render_template ''post.html'')
           | Some com_form \<Rightarrow>
               (case current_user st of
                  Inl e \<Rightarrow> Inl e
                | Inr Anonymous \<Rightarrow>
                    Inr (flash ''You need to Login or register to comment'' st, Redirect Login)
                | Inr (Authenticated u) \<Rightarrow>
                    (let new_comment =
                           \<lparr>cid = next_id (map cid (comments st)),
                            comment_author_id = uid u,
                            post_id = pid requested_post,
                            comment_text = cf_comment_text com_form\<rparr>
                     in Inr (st\<lparr>comments := comments st @ [new_comment]\<rparr>,
                             Render_template ''post.html'')))))"

text \<open>
  \<^verbatim>\<open>add_new_post\<close>, first the function as written, then under its decorator. The insert
  violates the unique constraint of \<^verbatim>\<open>title\<close> when a row with that title exists; the
  exception is not caught. \<open>today\<close> is \<^verbatim>\<open>date.today()\<close>.
\<close>

definition add_new_post_body ::
  "(CreatePostForm \<Rightarrow> bool) \<Rightarrow> pydate \<Rightarrow> CreatePostForm request \<Rightarrow> app_state \<Rightarrow> outcome"
where
  "add_new_post_body vld today req st =
     (case validate_on_submit vld req of
        None \<Rightarrow> Inr (st, Render_template ''make-post.html'')
      | Some form \<Rightarrow>
          (case current_user st of
             Inl e \<Rightarrow> Inl e
           | Inr Anonymous \<Rightarrow> Inl AttributeError
           | Inr (Authenticated u) \<Rightarrow>
               (let new_post =
                      \<lparr>pid = next_id (map pid (blog_posts st)),
                       author_id = uid u,
                       title = pf_title form,
                       subtitle = pf_subtitle form,
                       date = strftime_B_d_Y today,
                       body = pf_body form,
                       img_url = pf_img_url form\<rparr>
                in if pf_title form \<in> set (map title (blog_posts st)) then Inl IntegrityError
                   else Inr (st\<lparr>blog_posts := blog_posts st @ [new_post]\<rparr>,
                             Redirect Get_all_posts))))"

definition add_new_post ::
  "(CreatePostForm \<Rightarrow> bool) \<Rightarrow> pydate \<Rightarrow> CreatePostForm request \<Rightarrow> app_state \<Rightarrow> outcome"
where
  "add_new_post vld today req = admin_only (add_new_post_body vld today req)"

text \<open>
  \<^verbatim>\<open>edit_post\<close>. The update violates the unique constraint when another row already has
  the submitted title.
\<close>

definition edit_post_body ::
  "(CreatePostForm \<Rightarrow> bool) \<Rightarrow> int \<Rightarrow> CreatePostForm request \<Rightarrow> app_state \<Rightarrow> outcome"
where
  "edit_post_body vld i req st =
     (case get_or_404 pid (blog_posts st) i of
        Inl e \<Rightarrow> Inl e
      | Inr post \<Rightarrow>
          (case validate_on_submit vld req of
             None \<Rightarrow> Inr (st, Render_template ''make-post.html'')
           | Some edit_form \<Rightarrow>
               (case current_user st of
                  Inl e \<Rightarrow> Inl e
                | Inr Anonymous \<Rightarrow> Inl AttributeError
                | Inr (Authenticated u) \<Rightarrow>
                    (let edited =
                           post\<lparr>title := pf_title edit_form,
                                subtitle := pf_subtitle edit_form,
                                img_url := pf_img_url edit_form,
                                author_id := uid u,
                                body := pf_body edit_form\<rparr>
                     in if list_ex (\<lambda>q. pid q \<noteq> pid post \<and> title q = pf_title edit_form)
                             (blog_posts st)
                        then Inl IntegrityError
                        else Inr (st\<lparr>blog_posts :=
                                       map (\<lambda>q. if pid q = pid post then edited else q)
                                         (blog_posts st)\<rparr>,
                                  Redirect (Show_post (pid post)))))))"

definition edit_post ::
  "(CreatePostForm \<Rightarrow> bool) \<Rightarrow> int \<Rightarrow> CreatePostForm request \<Rightarrow> app_state \<Rightarrow> outcome"
where
  "edit_post vld i req = admin_only (edit_post_body vld i req)"

text \<open>
  \<^verbatim>\<open>delete_post\<close>, which has no decorator. \<^verbatim>\<open>BlogPost.comments\<close> has no delete cascade,
  so on deleting the post the session first clears \<^verbatim>\<open>post_id\<close> of each of its comments;
  the column is declared \<^verbatim>\<open>Mapped[str]\<close> without \<^verbatim>\<open>Optional\<close>, hence not nullable, and the
  flush fails when the post has a comment.
\<close>

definition delete_post :: "int \<Rightarrow> app_state \<Rightarrow> outcome" where
  "delete_post i st =
     (case get_or_404 pid (blog_posts st) i of
        Inl e \<Rightarrow> Inl e
      | Inr post_to_delete \<Rightarrow>
          if list_ex (\<lambda>c. post_id c = pid post_to_delete) (comments st)
          then Inl IntegrityError
          else Inr (st\<lparr>blog_posts := filter (\<lambda>q. pid q \<noteq> pid post_to_delete) (blog_posts st)\<rparr>,
                    Redirect Get_all_posts))"

section \<open>Reachable states\<close>

inductive reachable :: "app_state \<Rightarrow> bool" where
  start: "reachable initial_state"
| step_register: "reachable st \<Longrightarrow> register rvld gen rreq st = Inr (st', resp) \<Longrightarrow> reachable st'"
| step_login: "reachable st \<Longrightarrow> login lvld chk lreq st = Inr (st', resp) \<Longrightarrow> reachable st'"
| step_logout: "reachable st \<Longrightarrow> logout st = Inr (st', resp) \<Longrightarrow> reachable st'"
| step_show_post: "reachable st \<Longrightarrow> show_post cvld i creq st = Inr (st', resp) \<Longrightarrow> reachable st'"
| step_add_new_post:
    "reachable st \<Longrightarrow> add_new_post pvld today preq st = Inr (st', resp) \<Longrightarrow> reachable st'"
| step_edit_post: "reachable st \<Longrightarrow> edit_post pvld i preq st = Inr (st', resp) \<Longrightarrow> reachable st'"
| step_delete_post: "reachable st \<Longrightarrow> delete_post i st = Inr (st', resp) \<Longrightarrow> reachable st'"

section \<open>Example data\<close>

text \<open>
  A form class without validators, a stand-in for the password hashing pair, and a small
  blog: the administrator (id 1), a second account (id 2) and two posts without comments.
\<close>

definition accept_all :: "'f \<Rightarrow> bool" where
  "accept_all form = True"

definition example_hash :: "string \<Rightarrow> string" where
  "example_hash pw = ''pbkdf2:'' @ pw"

definition example_check :: "string \<Rightarrow> string \<Rightarrow> bool" where
  "example_check pwhash pw = (pwhash = example_hash pw)"

definition admin_acct :: UserAccts where
  "admin_acct =
     \<lparr>uid = 1, email = ''admin@x.com'', password = example_hash ''secret'', name = ''Admin''\<rparr>"

definition reader_acct :: UserAccts where
  "reader_acct = \<lparr>uid = 2, email = ''a@x.com'', password = example_hash ''pw'', name = ''A''\<rparr>"

definition example_day :: pydate where
  "example_day = \<lparr>year = 2024, month = March, day = 5\<rparr>"

definition hello_form :: CreatePostForm where
  "hello_form =
     \<lparr>pf_title = ''Hello'', pf_subtitle = ''first'', pf_img_url = ''i.png'', pf_body = ''text''\<rparr>"

definition hello_post :: BlogPost where
  "hello_post =
     \<lparr>pid = 1, author_id = 1, title = ''Hello'', subtitle = ''first'',
      date = ''March 05, 2024'', body = ''text'', img_url = ''i.png''\<rparr>"

definition world_post :: BlogPost where
  "world_post =
     \<lparr>pid = 2, author_id = 1, title = ''World'', subtitle = ''second'',
      date = ''March 05, 2024'', body = ''more'', img_url = ''j.png''\<rparr>"

definition blog_state :: "int option \<Rightarrow> app_state" where
  "blog_state who =
     \<lparr>user_accts = [admin_acct, reader_acct], blog_posts = [hello_post, world_post],
      comments = [], session_user_id = who, flashes = []\<rparr>"

definition one_post_state :: app_state where
  "one_post_state =
     \<lparr>user_accts = [admin_acct], blog_posts = [hello_post],
      comments = [], session_user_id = Some 1, flashes = []\<rparr>"



section \<open>Auxiliary facts\<close>

lemma fold_max_lower: "(a::int) \<le> fold max ids a"
proof (induction ids arbitrary: a)
  case Nil
  show ?case by simp
next
  case (Cons x xs)
  have "a \<le> max x a" by simp
  also have "\<dots> \<le> fold max xs (max x a)" by (rule Cons.IH)
  finally show ?case by simp
qed

lemma fold_max_upper: "x \<in> set ids \<Longrightarrow> (x::int) \<le> fold max ids a"
proof (induction ids arbitrary: a)
  case Nil
  then show ?case by simp
next
  case (Cons y ys)
  show ?case
  proof (cases "x = y")
    case True
    have "x \<le> max y a" using True by simp
    also have "\<dots> \<le> fold max ys (max y a)" by (rule fold_max_lower)
    finally show ?thesis by simp
  next
    case False
    with Cons.prems have "x \<in> set ys" by simp
    then show ?thesis using Cons.IH by simp
  qed
qed

lemma next_id_fresh: "next_id ids \<notin> set ids"
proof
  assume "next_id ids \<in> set ids"
  then have "next_id ids \<le> fold max ids 0" by (rule fold_max_upper)
  then show False by (simp add: next_id_def)
qed

lemma example_day_str: "strftime_B_d_Y example_day = ''March 05, 2024''"
  by (simp add: strftime_B_d_Y_def example_day_def show_nat.simps)

lemma current_user_blog_state:
  "current_user (blog_state None) = Inr Anonymous"
  "current_user (blog_state (Some 1)) = Inr (Authenticated admin_acct)"
  "current_user (blog_state (Some 2)) = Inr (Authenticated reader_acct)"
  by (simp_all add: current_user_def load_user_def get_or_404_def blog_state_def
      admin_acct_def reader_acct_def)

lemma edit_titles_distinct:
  "distinct (map pid ps) \<Longrightarrow> distinct (map title ps) \<Longrightarrow>
   \<not> list_ex (\<lambda>q. pid q \<noteq> i \<and> title q = title e) ps \<Longrightarrow>
   distinct (map title (map (\<lambda>q. if pid q = i then e else q) ps))"
proof (induction ps)
  case Nil
  show ?case by simp
next
  case (Cons q qs)
  then have IH: "distinct (map title (map (\<lambda>q. if pid q = i then e else q) qs))"
    by simp
  show ?case
  proof (cases "pid q = i")
    case True
    with Cons.prems have "\<forall>r\<in>set qs. pid r \<noteq> i" by (auto simp: image_iff)
    moreover from this Cons.prems have "\<forall>r\<in>set qs. title r \<noteq> title e"
      by (auto simp: list_ex_iff)
    ultimately show ?thesis using IH True by (auto simp: image_iff)
  next
    case False
    with Cons.prems have "title q \<noteq> title e" by (auto simp: list_ex_iff)
    with Cons.prems IH False show ?thesis by (auto simp: image_iff)
  qed
qed

lemma edit_pids_same:
  "pid e = i \<Longrightarrow> map pid (map (\<lambda>q. if pid q = i then e else q) ps) = map pid ps"
  by (induction ps) auto

lemma edit_find_edited:
  "pid e = i \<Longrightarrow> find (\<lambda>q. pid q = i) ps = Some p \<Longrightarrow>
   find (\<lambda>q. pid q = i) (map (\<lambda>q. if pid q = i then e else q) ps) = Some e"
  by (induction ps) (auto split: if_splits)

lemma edit_others_same:
  "pid e = i \<Longrightarrow>
   filter (\<lambda>q. pid q \<noteq> i) (map (\<lambda>q. if pid q = i then e else q) ps)
     = filter (\<lambda>q. pid q \<noteq> i) ps"
  by (induction ps) auto

lemma register_blog_posts:
  "register vld gen req st = Inr (st', resp) \<Longrightarrow> blog_posts st' = blog_posts st"
  by (auto simp: register_def flash_def login_user_def Let_def split: option.splits)

lemma login_blog_posts:
  "login vld chk req st = Inr (st', resp) \<Longrightarrow> blog_posts st' = blog_posts st"
  by (auto simp: login_def flash_def login_user_def split: option.splits if_splits)

lemma logout_blog_posts:
  "logout st = Inr (st', resp) \<Longrightarrow> blog_posts st' = blog_posts st"
  by (auto simp: logout_def logout_user_def)

lemma show_post_blog_posts:
  "show_post vld i req st = Inr (st', resp) \<Longrightarrow> blog_posts st' = blog_posts st"
  by (auto simp: show_post_def flash_def Let_def
      split: option.splits sum.splits principal.splits)

lemma add_new_post_distinct:
  assumes "add_new_post vld today req st = Inr (st', resp)"
    and "distinct (map pid (blog_posts st))" and "distinct (map title (blog_posts st))"
  shows "distinct (map pid (blog_posts st')) \<and> distinct (map title (blog_posts st'))"
  using assms next_id_fresh [of "map pid (blog_posts st)"]
  by (auto simp: add_new_post_def admin_only_def add_new_post_body_def Let_def
      split: option.splits sum.splits principal.splits if_splits)

lemma edit_post_distinct:
  assumes "edit_post vld i req st = Inr (st', resp)"
    and "distinct (map pid (blog_posts st))" and "distinct (map title (blog_posts st))"
  shows "distinct (map pid (blog_posts st')) \<and> distinct (map title (blog_posts st'))"
proof -
  from assms(1) have body: "edit_post_body vld i req st = Inr (st', resp)"
    by (auto simp: edit_post_def admin_only_def split: sum.splits principal.splits if_splits)
  then obtain post where post: "get_or_404 pid (blog_posts st) i = Inr post"
    by (auto simp: edit_post_body_def split: sum.splits)
  show ?thesis
  proof (cases "validate_on_submit vld req")
    case None
    with body post assms(2,3) show ?thesis by (simp add: edit_post_body_def)
  next
    case (Some edit_form)
    from body post Some obtain u where u: "current_user st = Inr (Authenticated u)"
      by (auto simp: edit_post_body_def split: sum.splits principal.splits)
    define edited where
      "edited = post\<lparr>title := pf_title edit_form, subtitle := pf_subtitle edit_form,
                     img_url := pf_img_url edit_form, author_id := uid u,
                     body := pf_body edit_form\<rparr>"
    from body post Some u
    have free: "\<not> list_ex (\<lambda>q. pid q \<noteq> pid post \<and> title q = title edited) (blog_posts st)"
      and st': "blog_posts st' = map (\<lambda>q. if pid q = pid post then edited else q) (blog_posts st)"
      by (auto simp: edit_post_body_def Let_def edited_def split: if_splits)
    have "pid edited = pid post" by (simp add: edited_def)
    then have "map pid (blog_posts st') = map pid (blog_posts st)"
      unfolding st' by (rule edit_pids_same)
    moreover have "distinct (map title (blog_posts st'))"
      unfolding st' using assms(2,3) free by (rule edit_titles_distinct)
    ultimately show ?thesis using assms(2) by simp
  qed
qed

lemma delete_post_distinct:
  assumes "delete_post i st = Inr (st', resp)"
    and "distinct (map pid (blog_posts st))" and "distinct (map title (blog_posts st))"
  shows "distinct (map pid (blog_posts st')) \<and> distinct (map title (blog_posts st'))"
  using assms
  by (auto simp: delete_post_def distinct_map_filter split: sum.splits if_splits)

lemma reachable_posts_distinct:
  "reachable st \<Longrightarrow>
   distinct (map pid (blog_posts st)) \<and> distinct (map title (blog_posts st))"
proof (induction rule: reachable.induct)
  case start
  show ?case by (simp add: initial_state_def)
next
  case (step_register st rvld gen rreq st' resp)
  then show ?case by (simp add: register_blog_posts)
next
  case (step_login st lvld chk lreq st' resp)
  then show ?case by (simp add: login_blog_posts)
next
  case (step_logout st st' resp)
  then show ?case by (simp add: logout_blog_posts)
next
  case (step_show_post st cvld i creq st' resp)
  then show ?case by (simp add: show_post_blog_posts)
next
  case (step_add_new_post st pvld today preq st' resp)
  then show ?case using add_new_post_distinct by blast
next
  case (step_edit_post st pvld i preq st' resp)
  then show ?case using edit_post_distinct by blast
next
  case (step_delete_post st i st' resp)
  then show ?case using delete_post_distinct by blast
qed

lemma reachable_one_post_state: "reachable one_post_state"
proof -
  let ?s0 = "\<lparr>user_accts = [admin_acct], blog_posts = [], comments = [],
              session_user_id = Some 1, flashes = []\<rparr>"
  have "register accept_all example_hash
          (POST \<lparr>rf_email = ''admin@x.com'', rf_password = ''secret'', rf_name = ''Admin''\<rparr>)
          initial_state = Inr (?s0, Redirect Get_all_posts)"
    by (simp add: register_def accept_all_def initial_state_def next_id_def login_user_def
        admin_acct_def)
  with start have r0: "reachable ?s0" by (rule step_register)
  have "add_new_post accept_all example_day (POST hello_form) ?s0
          = Inr (one_post_state, Redirect Get_all_posts)"
    by (simp add: add_new_post_def admin_only_def add_new_post_body_def current_user_def
        load_user_def get_or_404_def accept_all_def next_id_def admin_acct_def hello_form_def
        hello_post_def one_post_state_def example_day_str)
  with r0 show ?thesis by (rule step_add_new_post)
qed

lemma current_user_one_post_state:
  "current_user one_post_state = Inr (Authenticated admin_acct)"
  by (simp add: current_user_def load_user_def get_or_404_def one_post_state_def admin_acct_def)

lemma reachable_blog_state:
  "reachable (blog_state (Some 1))" "reachable (blog_state None)" "reachable (blog_state (Some 2))"
proof -
  let ?a = "\<lparr>rf_email = ''admin@x.com'', rf_password = ''secret'', rf_name = ''Admin''\<rparr>"
  let ?r = "\<lparr>rf_email = ''a@x.com'', rf_password = ''pw'', rf_name = ''A''\<rparr>"
  let ?w = "\<lparr>pf_title = ''World'', pf_subtitle = ''second'', pf_img_url = ''j.png'',
             pf_body = ''more''\<rparr>"
  let ?s1 = "\<lparr>user_accts = [admin_acct], blog_posts = [], comments = [],
              session_user_id = Some 1, flashes = []\<rparr>"
  let ?s2 = "\<lparr>user_accts = [admin_acct, reader_acct], blog_posts = [], comments = [],
              session_user_id = Some 2, flashes = []\<rparr>"
  let ?s3 = "\<lparr>user_accts = [admin_acct, reader_acct], blog_posts = [], comments = [],
              session_user_id = Some 1, flashes = []\<rparr>"
  let ?s4 = "\<lparr>user_accts = [admin_acct, reader_acct], blog_posts = [hello_post], comments = [],
              session_user_id = Some 1, flashes = []\<rparr>"
  have "register accept_all example_hash (POST ?a) initial_state = Inr (?s1, Redirect Get_all_posts)"
    by (simp add: register_def accept_all_def initial_state_def next_id_def login_user_def
        admin_acct_def)
  with start have r1: "reachable ?s1" by (rule step_register)
  have "register accept_all example_hash (POST ?r) ?s1 = Inr (?s2, Redirect Get_all_posts)"
    by (simp add: register_def accept_all_def next_id_def login_user_def admin_acct_def
        reader_acct_def)
  with r1 have r2: "reachable ?s2" by (rule step_register)
  have "login accept_all example_check (POST \<lparr>lf_email = ''admin@x.com'', lf_password = ''secret''\<rparr>) ?s2
          = Inr (?s3, Redirect Get_all_posts)"
    by (simp add: login_def accept_all_def login_user_def admin_acct_def reader_acct_def
        example_check_def)
  with r2 have r3: "reachable ?s3" by (rule step_login)
  have "add_new_post accept_all example_day (POST hello_form) ?s3 = Inr (?s4, Redirect Get_all_posts)"
    by (simp add: add_new_post_def admin_only_def add_new_post_body_def current_user_def
        load_user_def get_or_404_def accept_all_def next_id_def admin_acct_def reader_acct_def
        hello_form_def hello_post_def example_day_str)
  with r3 have r4: "reachable ?s4" by (rule step_add_new_post)
  have "add_new_post accept_all example_day (POST ?w) ?s4
          = Inr (blog_state (Some 1), Redirect Get_all_posts)"
    by (simp add: add_new_post_def admin_only_def add_new_post_body_def current_user_def
        load_user_def get_or_404_def accept_all_def next_id_def admin_acct_def reader_acct_def
        hello_post_def world_post_def blog_state_def example_day_str)
  with r4 show r5: "reachable (blog_state (Some 1))" by (rule step_add_new_post)
  have "logout (blog_state (Some 1)) = Inr (blog_state None, Redirect Get_all_posts)"
    by (simp add: logout_def logout_user_def blog_state_def)
  with r5 show r6: "reachable (blog_state None)" by (rule step_logout)
  have "login accept_all example_check (POST \<lparr>lf_email = ''a@x.com'', lf_password = ''pw''\<rparr>)
          (blog_state None) = Inr (blog_state (Some 2), Redirect Get_all_posts)"
    by (simp add: login_def accept_all_def login_user_def admin_acct_def reader_acct_def
        example_check_def blog_state_def)
  with r6 show "reachable (blog_state (Some 2))" by (rule step_login)
qed


section \<open>The authorization guard\<close>

text \<open>
  C1. The claim: a delete request by a principal other than account 1 is rejected with
  Forbidden and the post stays. The handler has no guard: in the example blog, a state the
  application reaches, the request for post 1 succeeds for the second account and for an
  anonymous caller alike; the post is gone and the response is the redirect to the listing.
\<close>

theorem delete_post_unguarded:
  "reachable (blog_state (Some 2)) \<and> delete_post 1 (blog_state (Some 2))
     = Inr ((blog_state (Some 2))\<lparr>blog_posts := [world_post]\<rparr>, Redirect Get_all_posts)
   \<and> delete_post 1 (blog_state None)
     = Inr ((blog_state None)\<lparr>blog_posts := [world_post]\<rparr>, Redirect Get_all_posts)"
  using reachable_blog_state(3)
  by (simp add: delete_post_def get_or_404_def blog_state_def hello_post_def world_post_def)

text \<open>
  C2. When the session principal is an account whose id is not 1, the guard answers
  Forbidden whatever the wrapped function is, so the function is never run; in particular
  create-post and edit-post answer Forbidden and leave the state as it was.
\<close>

theorem admin_only_forbids_other_accounts:
  assumes "current_user st = Inr (Authenticated u)" and "uid u \<noteq> 1"
  shows "admin_only func st = Inl Forbidden
       \<and> add_new_post pvld today preq st = Inl Forbidden
       \<and> edit_post pvld i preq st = Inl Forbidden
       \<and> state_after st (add_new_post pvld today preq st) = st
       \<and> state_after st (edit_post pvld i preq st) = st"
  using assms by (simp add: admin_only_def add_new_post_def edit_post_def state_after_def)

theorem admin_only_forbids_other_accounts_witness:
  "add_new_post accept_all example_day (POST hello_form) (blog_state (Some 2)) = Inl Forbidden
   \<and> edit_post accept_all 1 (POST hello_form) (blog_state (Some 2)) = Inl Forbidden
   \<and> state_after (blog_state (Some 2))
        (add_new_post accept_all example_day (POST hello_form) (blog_state (Some 2)))
      = blog_state (Some 2)"
  using admin_only_forbids_other_accounts
    [of "blog_state (Some 2)" reader_acct
        "add_new_post_body accept_all example_day (POST hello_form)"
        accept_all example_day "POST hello_form" 1]
  by (simp add: reader_acct_def state_after_def current_user_blog_state)

text \<open>
  C3. The claim: an anonymous caller of a guarded operation is answered Forbidden, not an
  uncaught error. With no user id in the session the guard reads the id of the anonymous
  user object, which has none: the request ends in the uncaught AttributeError, for every
  wrapped function and every state, and so for create-post and edit-post.
\<close>

theorem admin_only_anonymous_raises:
  "admin_only func (st\<lparr>session_user_id := None\<rparr>) = Inl AttributeError
   \<and> add_new_post pvld today preq (blog_state None) = Inl AttributeError
   \<and> edit_post pvld 1 preq (blog_state None) = Inl AttributeError"
  by (simp add: admin_only_def add_new_post_def edit_post_def current_user_def blog_state_def)

section \<open>Registration, login and comments\<close>

text \<open>
  C4. When the submitted email is the email of a stored account, the table of accounts
  after the request is the table before it, whether or not the form validates; and when the
  form validates, the response is the redirect to the login page and the only change of the
  state is the notice appended to the flashed messages.
\<close>

theorem register_duplicate_email:
  assumes "rf_email form \<in> set (map email (user_accts st))"
  shows "user_accts (state_after st (register vld gen (POST form) st)) = user_accts st
       \<and> (vld form \<longrightarrow>
            register vld gen (POST form) st
              = Inr (st\<lparr>flashes := flashes st
                         @ [''You've already signed up with that email, log in instead!'']\<rparr>,
                     Redirect Login))"
proof -
  from assms obtain user where "find (\<lambda>u. email u = rf_email form) (user_accts st) = Some user"
    by (cases "find (\<lambda>u. email u = rf_email form) (user_accts st)")
       (auto simp: find_None_iff)
  then show ?thesis
    by (simp add: register_def state_after_def flash_def)
qed

theorem register_duplicate_email_witness:
  "user_accts (state_after (blog_state None)
       (register accept_all example_hash
          (POST \<lparr>rf_email = ''a@x.com'', rf_password = ''other'', rf_name = ''B''\<rparr>)
          (blog_state None)))
     = [admin_acct, reader_acct]
   \<and> register accept_all example_hash
          (POST \<lparr>rf_email = ''a@x.com'', rf_password = ''other'', rf_name = ''B''\<rparr>)
          (blog_state None)
     = Inr ((blog_state None)\<lparr>flashes :=
              [''You've already signed up with that email, log in instead!'']\<rparr>,
            Redirect Login)"
  using register_duplicate_email
    [of "\<lparr>rf_email = ''a@x.com'', rf_password = ''other'', rf_name = ''B''\<rparr>"
        "blog_state None" accept_all example_hash]
  by (simp add: blog_state_def reader_acct_def admin_acct_def accept_all_def state_after_def)

text \<open>
  C5. A comment form posted to an existing post by a requester who is not authenticated
  leaves the table of comments as it was, whether or not the form validates; and when the
  form validates, the response is the redirect to the login page and the only change of the
  state is the notice appended to the flashed messages.
\<close>

theorem comment_requires_login:
  assumes "i \<in> set (map pid (blog_posts st))"
    and "current_user st = Inr p" and "\<not> is_authenticated p"
  shows "comments (state_after st (show_post vld i (POST form) st)) = comments st
       \<and> (vld form \<longrightarrow>
            show_post vld i (POST form) st
              = Inr (st\<lparr>flashes := flashes st @ [''You need to Login or register to comment'']\<rparr>,
                     Redirect Login))"
proof -
  from assms(1) obtain rp where "find (\<lambda>r. pid r = i) (blog_posts st) = Some rp"
    by (cases "find (\<lambda>r. pid r = i) (blog_posts st)") (auto simp: find_None_iff)
  then have "get_or_404 pid (blog_posts st) i = Inr rp"
    by (simp add: get_or_404_def)
  moreover from assms(3) have "p = Anonymous" by (cases p) simp_all
  ultimately show ?thesis using assms(2)
    by (simp add: show_post_def state_after_def flash_def)
qed

theorem comment_requires_login_witness:
  "comments (state_after (blog_state None)
       (show_post accept_all 1 (POST \<lparr>cf_comment_text = ''nice''\<rparr>) (blog_state None))) = []
   \<and> show_post accept_all 1 (POST \<lparr>cf_comment_text = ''nice''\<rparr>) (blog_state None)
     = Inr ((blog_state None)\<lparr>flashes := [''You need to Login or register to comment'']\<rparr>,
            Redirect Login)"
  using comment_requires_login
    [of 1 "blog_state None" Anonymous accept_all "\<lparr>cf_comment_text = ''nice''\<rparr>"]
    current_user_blog_state(1)
  by (simp add: blog_state_def hello_post_def world_post_def accept_all_def state_after_def)

text \<open>
  C7. For a validated login form: an email of no stored account, and a wrong password for
  the account found by the email, both answer with the redirect to the login page, each
  with its own notice (the two notices differ), and change nothing but the flashed
  messages, so the session user is as before; a right password stores the id of the account
  found in the session and answers with the redirect to the listing.
\<close>

theorem login_outcomes:
  assumes "vld form"
  shows "(lf_email form \<notin> set (map email (user_accts st)) \<longrightarrow>
            login vld chk (POST form) st
              = Inr (st\<lparr>flashes := flashes st
                         @ [''That email does not exist, please try again.'']\<rparr>,
                     Redirect Login))
       \<and> (\<forall>u_acct. find (\<lambda>u. email u = lf_email form) (user_accts st) = Some u_acct \<longrightarrow>
            (\<not> chk (password u_acct) (lf_password form) \<longrightarrow>
               login vld chk (POST form) st
                 = Inr (st\<lparr>flashes := flashes st @ [''Password incorrect, please try again.'']\<rparr>,
                        Redirect Login))
          \<and> (chk (password u_acct) (lf_password form) \<longrightarrow>
               login vld chk (POST form) st
                 = Inr (st\<lparr>session_user_id := Some (uid u_acct)\<rparr>, Redirect Get_all_posts)))
       \<and> ''That email does not exist, please try again.''
           \<noteq> ''Password incorrect, please try again.''"
proof -
  have "lf_email form \<notin> set (map email (user_accts st)) \<Longrightarrow>
        find (\<lambda>u. email u = lf_email form) (user_accts st) = None"
    by (force simp: find_None_iff)
  with assms show ?thesis
    by (auto simp add: login_def flash_def login_user_def)
qed

theorem login_outcomes_witness:
  "login accept_all example_check
      (POST \<lparr>lf_email = ''nobody@x.com'', lf_password = ''pw''\<rparr>) (blog_state None)
     = Inr ((blog_state None)\<lparr>flashes := [''That email does not exist, please try again.'']\<rparr>,
            Redirect Login)
   \<and> login accept_all example_check
      (POST \<lparr>lf_email = ''a@x.com'', lf_password = ''bad''\<rparr>) (blog_state None)
     = Inr ((blog_state None)\<lparr>flashes := [''Password incorrect, please try again.'']\<rparr>,
            Redirect Login)
   \<and> login accept_all example_check
      (POST \<lparr>lf_email = ''a@x.com'', lf_password = ''pw''\<rparr>) (blog_state None)
     = Inr ((blog_state None)\<lparr>session_user_id := Some 2\<rparr>, Redirect Get_all_posts)"
  using login_outcomes
    [of accept_all "\<lparr>lf_email = ''nobody@x.com'', lf_password = ''pw''\<rparr>" "blog_state None"
        example_check]
    login_outcomes
    [of accept_all "\<lparr>lf_email = ''a@x.com'', lf_password = ''bad''\<rparr>" "blog_state None"
        example_check]
    login_outcomes
    [of accept_all "\<lparr>lf_email = ''a@x.com'', lf_password = ''pw''\<rparr>" "blog_state None"
        example_check]
  by (simp add: blog_state_def reader_acct_def admin_acct_def accept_all_def example_check_def
      example_hash_def)

section \<open>Posts\<close>

text \<open>
  C6. When the submitted title is the title of a stored post, create-post leaves the table
  of posts as it was for every caller, and for the administrator with a validated form the
  request ends in the integrity error of the unique constraint; and in every reachable
  state the titles of the posts are pairwise different.
\<close>

theorem post_titles_unique:
  "(pf_title form \<in> set (map title (blog_posts st)) \<longrightarrow>
      blog_posts (state_after st (add_new_post vld today (POST form) st)) = blog_posts st
      \<and> (vld form \<and> current_user st = Inr (Authenticated u) \<and> uid u = 1 \<longrightarrow>
           add_new_post vld today (POST form) st = Inl IntegrityError))
   \<and> (reachable st \<longrightarrow> distinct (map title (blog_posts st)))"
proof -
  have "blog_posts (state_after st (add_new_post vld today (POST form) st)) = blog_posts st"
    if "pf_title form \<in> set (map title (blog_posts st))"
    using that
    by (auto simp: state_after_def add_new_post_def admin_only_def add_new_post_body_def Let_def
        split: sum.splits principal.splits)
  moreover have "add_new_post vld today (POST form) st = Inl IntegrityError"
    if "pf_title form \<in> set (map title (blog_posts st))" "vld form"
      "current_user st = Inr (Authenticated u)" "uid u = 1"
    using that by (simp add: add_new_post_def admin_only_def add_new_post_body_def)
  ultimately show ?thesis using reachable_posts_distinct by blast
qed

theorem post_titles_unique_witness:
  "add_new_post accept_all example_day (POST hello_form) one_post_state = Inl IntegrityError
   \<and> blog_posts (state_after one_post_state
        (add_new_post accept_all example_day (POST hello_form) one_post_state))
       = blog_posts one_post_state
   \<and> distinct (map title (blog_posts one_post_state))"
proof -
  have dup: "pf_title hello_form \<in> set (map title (blog_posts one_post_state))"
    by (simp add: hello_form_def one_post_state_def hello_post_def)
  have ok: "accept_all hello_form" by (simp add: accept_all_def)
  have adm: "uid admin_acct = 1" by (simp add: admin_acct_def)
  from post_titles_unique [of hello_form one_post_state accept_all example_day admin_acct]
    dup ok adm current_user_one_post_state reachable_one_post_state
  show ?thesis by blast
qed

text \<open>
  C8. The claim as stated, for every validated create-post form of the administrator, fails
  when the title is taken: in the state reached by registering the administrator and
  creating the post titled Hello, a second validated form with that title ends in the
  integrity error and no post is created.
\<close>

theorem add_new_post_duplicate_title_counterexample:
  "reachable one_post_state
   \<and> current_user one_post_state = Inr (Authenticated admin_acct) \<and> uid admin_acct = 1
   \<and> accept_all hello_form
   \<and> add_new_post accept_all example_day (POST hello_form) one_post_state = Inl IntegrityError
   \<and> blog_posts (state_after one_post_state
        (add_new_post accept_all example_day (POST hello_form) one_post_state))
       = blog_posts one_post_state"
  using reachable_one_post_state
  by (simp add: add_new_post_def admin_only_def add_new_post_body_def current_user_def
      load_user_def get_or_404_def accept_all_def admin_acct_def hello_form_def hello_post_def
      one_post_state_def state_after_def)

text \<open>
  C8, amended. For a validated create-post form of the administrator whose title is the
  title of no stored post, the table of posts grows by exactly one row, which has the next
  id, the submitted fields, today's date as a display string and the session user as
  author; the response is the redirect to the listing.
\<close>

theorem add_new_post_creates_post:
  assumes "current_user st = Inr (Authenticated u)" and "uid u = 1" and "vld form"
    and "pf_title form \<notin> set (map title (blog_posts st))"
  shows "add_new_post vld today (POST form) st
           = Inr (st\<lparr>blog_posts := blog_posts st @
                       [\<lparr>pid = next_id (map pid (blog_posts st)),
                         author_id = uid u,
                         title = pf_title form,
                         subtitle = pf_subtitle form,
                         date = strftime_B_d_Y today,
                         body = pf_body form,
                         img_url = pf_img_url form\<rparr>]\<rparr>,
                  Redirect Get_all_posts)"
  using assms by (simp add: add_new_post_def admin_only_def add_new_post_body_def)

theorem add_new_post_creates_post_witness:
  "add_new_post accept_all example_day
      (POST \<lparr>pf_title = ''World'', pf_subtitle = ''second'', pf_img_url = ''j.png'',
             pf_body = ''more''\<rparr>) one_post_state
     = Inr (one_post_state\<lparr>blog_posts := [hello_post, world_post]\<rparr>, Redirect Get_all_posts)"
  using add_new_post_creates_post
    [of one_post_state admin_acct accept_all
        "\<lparr>pf_title = ''World'', pf_subtitle = ''second'', pf_img_url = ''j.png'',
          pf_body = ''more''\<rparr>" example_day]
    current_user_one_post_state
  by (simp add: one_post_state_def hello_post_def world_post_def accept_all_def admin_acct_def
      next_id_def example_day_str)

text \<open>
  C9. The claim as stated, for every validated edit-post form of the administrator on an
  existing post, fails when another post has the submitted title: in the example blog,
  renaming post 2 to Hello ends in the integrity error and nothing is overwritten.
\<close>

theorem edit_post_duplicate_title_counterexample:
  "reachable (blog_state (Some 1))
   \<and> current_user (blog_state (Some 1)) = Inr (Authenticated admin_acct) \<and> uid admin_acct = 1
   \<and> accept_all hello_form
   \<and> get_or_404 pid (blog_posts (blog_state (Some 1))) 2 = Inr world_post
   \<and> edit_post accept_all 2 (POST hello_form) (blog_state (Some 1)) = Inl IntegrityError
   \<and> state_after (blog_state (Some 1))
        (edit_post accept_all 2 (POST hello_form) (blog_state (Some 1)))
       = blog_state (Some 1)"
  using reachable_blog_state(1)
  by (simp add: edit_post_def admin_only_def edit_post_body_def current_user_def
      load_user_def get_or_404_def accept_all_def admin_acct_def reader_acct_def hello_form_def
      hello_post_def world_post_def blog_state_def state_after_def)

text \<open>
  C9, amended. For a validated edit-post form of the administrator on an existing post,
  with a title that no other post has: the row of that post gets the submitted title,
  subtitle, image reference and body and the session user as author (its id and date stay),
  looking the post up afterwards returns that row, the rows of all other posts are as
  before, and the response is the redirect to the page of the post.
\<close>

theorem edit_post_overwrites_post:
  assumes "current_user st = Inr (Authenticated u)" and "uid u = 1" and "vld form"
    and "get_or_404 pid (blog_posts st) i = Inr post"
    and "\<forall>q\<in>set (blog_posts st). pid q \<noteq> i \<longrightarrow> title q \<noteq> pf_title form"
  shows "edit_post vld i (POST form) st
           = Inr (st\<lparr>blog_posts :=
                       map (\<lambda>q. if pid q = i
                                then post\<lparr>title := pf_title form, subtitle := pf_subtitle form,
                                          img_url := pf_img_url form, author_id := uid u,
                                          body := pf_body form\<rparr>
                                else q) (blog_posts st)\<rparr>,
                  Redirect (Show_post i))
       \<and> get_or_404 pid (blog_posts (state_after st (edit_post vld i (POST form) st))) i
           = Inr (post\<lparr>title := pf_title form, subtitle := pf_subtitle form,
                       img_url := pf_img_url form, author_id := uid u, body := pf_body form\<rparr>)
       \<and> filter (\<lambda>q. pid q \<noteq> i) (blog_posts (state_after st (edit_post vld i (POST form) st)))
           = filter (\<lambda>q. pid q \<noteq> i) (blog_posts st)"
proof -
  define edited where
    "edited = post\<lparr>title := pf_title form, subtitle := pf_subtitle form,
                   img_url := pf_img_url form, author_id := uid u, body := pf_body form\<rparr>"
  from assms(4) have pid_post: "pid post = i" and found: "find (\<lambda>q. pid q = i) (blog_posts st) = Some post"
    by (auto simp: get_or_404_def find_Some_iff split: option.splits)
  have pid_edited: "pid edited = i" using pid_post by (simp add: edited_def)
  from assms(5) have free:
    "\<not> list_ex (\<lambda>q. pid q \<noteq> pid post \<and> title q = pf_title form) (blog_posts st)"
    using pid_post by (auto simp: list_ex_iff)
  have run: "edit_post vld i (POST form) st
      = Inr (st\<lparr>blog_posts := map (\<lambda>q. if pid q = i then edited else q) (blog_posts st)\<rparr>,
             Redirect (Show_post i))"
    using assms(1-4) free pid_post
    by (simp add: edit_post_def admin_only_def edit_post_body_def edited_def)
  have "get_or_404 pid (map (\<lambda>q. if pid q = i then edited else q) (blog_posts st)) i = Inr edited"
    using edit_find_edited [OF pid_edited found] by (simp add: get_or_404_def)
  moreover have "filter (\<lambda>q. pid q \<noteq> i) (map (\<lambda>q. if pid q = i then edited else q) (blog_posts st))
      = filter (\<lambda>q. pid q \<noteq> i) (blog_posts st)"
    using pid_edited by (rule edit_others_same)
  ultimately show ?thesis using run by (simp add: state_after_def edited_def)
qed

theorem edit_post_overwrites_post_witness:
  "edit_post accept_all 2
      (POST \<lparr>pf_title = ''Earth'', pf_subtitle = ''third'', pf_img_url = ''k.png'',
             pf_body = ''new''\<rparr>) (blog_state (Some 1))
     = Inr ((blog_state (Some 1))\<lparr>blog_posts :=
              [hello_post,
               \<lparr>pid = 2, author_id = 1, title = ''Earth'', subtitle = ''third'',
                date = ''March 05, 2024'', body = ''new'', img_url = ''k.png''\<rparr>]\<rparr>,
            Redirect (Show_post 2))"
  using edit_post_overwrites_post
    [of "blog_state (Some 1)" admin_acct accept_all
        "\<lparr>pf_title = ''Earth'', pf_subtitle = ''third'', pf_img_url = ''k.png'',
          pf_body = ''new''\<rparr>" 2 world_post]
    current_user_blog_state(2)
  by (simp add: blog_state_def hello_post_def world_post_def accept_all_def admin_acct_def
      get_or_404_def)




end
